theory Spec2Isabelle
  imports Main "HOL-Library.Sublist"
begin

section \<open>Strings and the character classes of the regular expressions\<close>

text \<open>
  The source works on Python \<open>str\<close> values. A \<^typ>\<open>char\<close> stands for the code point of
  the same number, so the development covers the strings whose code points are below 256.
  On that range the classes below are the ones of Python 3: \<open>\s\<close> and \<open>str.isspace\<close> agree,
  \<open>\w\<close> is "alphanumeric or underscore", and \<open>re.IGNORECASE\<close> relates an ASCII letter of a
  pattern only to its own two cases.
\<close>

definition code_point :: "char \<Rightarrow> nat" where
  "code_point c = of_char c"

definition is_space :: "char \<Rightarrow> bool" where
  \<comment> \<open>\<open>\s\<close> of \<open>re\<close> and the characters removed by \<open>str.strip\<close> / \<open>str.rstrip\<close>\<close>
  "is_space c =
     (let n = code_point c
      in (9 \<le> n \<and> n \<le> 13) \<or> (28 \<le> n \<and> n \<le> 32) \<or> n = 133 \<or> n = 160)"

definition is_word :: "char \<Rightarrow> bool" where
  \<comment> \<open>\<open>\w\<close> of \<open>re\<close> on a \<open>str\<close> pattern\<close>
  "is_word c =
     (let n = code_point c
      in (48 \<le> n \<and> n \<le> 57) \<or> (65 \<le> n \<and> n \<le> 90) \<or> n = 95 \<or> (97 \<le> n \<and> n \<le> 122)
         \<or> n = 170 \<or> n = 178 \<or> n = 179 \<or> n = 181 \<or> n = 185 \<or> n = 186
         \<or> (188 \<le> n \<and> n \<le> 190) \<or> (192 \<le> n \<and> n \<le> 214)
         \<or> (216 \<le> n \<and> n \<le> 246) \<or> (248 \<le> n \<and> n \<le> 255))"

definition lower :: "char \<Rightarrow> char" where
  \<comment> \<open>case folding of \<open>re.IGNORECASE\<close> as far as the ASCII patterns of the source see it\<close>
  "lower c =
     (let n = code_point c in if 65 \<le> n \<and> n \<le> 90 then char_of (n + 32) else c)"

definition word_boundary :: "string \<Rightarrow> nat \<Rightarrow> bool" where
  \<comment> \<open>\<open>\b\<close> at position \<open>i\<close>: exactly one of the two neighbours is a word character\<close>
  "word_boundary s i =
     ((0 < i \<and> i \<le> length s \<and> is_word (s ! (i - 1))) \<noteq> (i < length s \<and> is_word (s ! i)))"

fun literal_prefix :: "string \<Rightarrow> string \<Rightarrow> bool" where
  \<comment> \<open>the literal \<open>p\<close> matches at the start of \<open>s\<close>, ignoring case\<close>
  "literal_prefix [] s = True"
| "literal_prefix (p # ps) [] = False"
| "literal_prefix (p # ps) (c # cs) = (if lower c = lower p then literal_prefix ps cs else False)"

definition literal_at :: "string \<Rightarrow> string \<Rightarrow> nat \<Rightarrow> bool" where
  \<comment> \<open>the literal \<open>p\<close> matches in \<open>s\<close> from position \<open>i\<close>, ignoring case\<close>
  "literal_at p s i = literal_prefix p (drop i s)"

definition whole_word_at :: "string \<Rightarrow> string \<Rightarrow> nat \<Rightarrow> bool" where
  \<comment> \<open>\<open>\bk\b\<close> for a literal \<open>k\<close> matches from position \<open>i\<close>\<close>
  "whole_word_at k s i =
     (if word_boundary s i
      then (if literal_at k s i then word_boundary s (i + length k) else False)
      else False)"

definition rstrip_chars :: "(char \<Rightarrow> bool) \<Rightarrow> string \<Rightarrow> string" where
  "rstrip_chars P s = rev (dropWhile P (rev s))"

definition rstrip :: "string \<Rightarrow> string" where
  \<comment> \<open>\<open>str.rstrip()\<close>\<close>
  "rstrip s = rstrip_chars is_space s"

definition strip :: "string \<Rightarrow> string" where
  \<comment> \<open>\<open>str.strip()\<close>\<close>
  "strip s = dropWhile is_space (rstrip s)"

section \<open>SQL safety\<close>

datatype py_error = ValueError string

definition KEYWORDS :: "string list" where
  "KEYWORDS =
     [''INSERT'', ''UPDATE'', ''DELETE'', ''ALTER'', ''DROP'', ''TRUNCATE'', ''VACUUM'',
      ''CREATE'', ''GRANT'', ''REVOKE'', ''COPY'']"

definition FORBIDDEN_alternatives :: "string list" where
  \<comment> \<open>the alternatives of the group in \<open>FORBIDDEN\<close>, in the order of the pattern\<close>
  "FORBIDDEN_alternatives = KEYWORDS @ ['';'', ''$$'']"

definition FORBIDDEN_at :: "string \<Rightarrow> nat \<Rightarrow> bool" where
  \<comment> \<open>\<open>\b(INSERT|...|;|\$\$)\b\<close> matches from position \<open>i\<close>\<close>
  "FORBIDDEN_at s i =
     (if word_boundary s i
      then list_ex (\<lambda>k. if literal_at k s i then word_boundary s (i + length k) else False)
             FORBIDDEN_alternatives
      else False)"

definition FORBIDDEN_search :: "string \<Rightarrow> bool" where
  \<comment> \<open>\<open>FORBIDDEN.search(sql)\<close> finds a match\<close>
  "FORBIDDEN_search s = list_ex (FORBIDDEN_at s) [0..<Suc (length s)]"

definition SELECT_match :: "string \<Rightarrow> bool" where
  \<comment> \<open>\<open>re.match(r"^\s*SELECT\b", sql, re.IGNORECASE)\<close>; \<open>\s*\<close> takes the whole run of
      white space, since a shorter run is followed by white space and not by \<open>S\<close>\<close>
  "SELECT_match s =
     (let i = length (takeWhile is_space s)
      in if literal_at ''SELECT'' s i then word_boundary s (i + 6) else False)"

definition LIMIT_at :: "string \<Rightarrow> nat \<Rightarrow> bool" where
  "LIMIT_at s i = whole_word_at ''LIMIT'' s i"

definition LIMIT_search :: "string \<Rightarrow> bool" where
  \<comment> \<open>\<open>re.search(r"\bLIMIT\b", sql, re.IGNORECASE)\<close>\<close>
  "LIMIT_search s = list_ex (LIMIT_at s) [0..<Suc (length s)]"

definition enforce_read_only :: "string \<Rightarrow> py_error + string" where
  "enforce_read_only sql =
     (if FORBIDDEN_search sql then Inl (ValueError ''Forbidden keywords detected in SQL'')
      else if 1 < count_list sql (CHR '';'')
        then Inl (ValueError ''Multiple statements detected; only SELECT allowed'')
      else if \<not> SELECT_match sql then Inl (ValueError ''Only SELECT queries allowed'')
      else if \<not> LIMIT_search sql
        then Inr (rstrip_chars (\<lambda>c. c = CHR '';'') (rstrip sql) @ '' LIMIT 100'')
      else Inr sql)"

section \<open>Extraction of the statement from the model's answer\<close>

definition find_close :: "string \<Rightarrow> nat \<Rightarrow> nat option" where
  \<comment> \<open>the lazy \<open>(.*?)\<close> under \<open>re.DOTALL\<close> stops at the first closing fence from \<open>j\<close> on\<close>
  "find_close s j = find (\<lambda>k. literal_at ''```'' s k) [j..<Suc (length s)]"

definition fence_match_at :: "string \<Rightarrow> nat \<Rightarrow> string option" where
  \<comment> \<open>\<open>```sql\s*(.*?)```\<close> from position \<open>i\<close>, giving group 1; the greedy \<open>\s*\<close> takes the
      whole run of white space (giving some back reveals no further closing fence, as white
      space is no backquote)\<close>
  "fence_match_at s i =
     (if literal_at ''```sql'' s i
      then (let j = i + 6 + length (takeWhile is_space (drop (i + 6) s))
            in case find_close s j of
                 None \<Rightarrow> None
               | Some k \<Rightarrow> Some (take (k - j) (drop j s)))
      else None)"

fun first_match :: "(nat \<Rightarrow> 'a option) \<Rightarrow> nat list \<Rightarrow> 'a option" where
  "first_match f [] = None"
| "first_match f (i # is) = (case f i of Some g \<Rightarrow> Some g | None \<Rightarrow> first_match f is)"

definition fence_search :: "string \<Rightarrow> string option" where
  \<comment> \<open>\<open>re.search\<close>: the match at the leftmost position that has one\<close>
  "fence_search s = first_match (fence_match_at s) [0..<Suc (length s)]"

definition extract_sql :: "string \<Rightarrow> string" where
  "extract_sql text = (case fence_search text of Some g \<Rightarrow> strip g | None \<Rightarrow> strip text)"

section \<open>The words of the specification\<close>

text \<open>
  The specification speaks of a keyword occurring "as a case-insensitive whole word", of a
  string that "begins with SELECT after leading white space", and of the input "with trailing
  white space and any trailing semicolon removed". These are stated here on their own, without
  positions or patterns, and are compared with the regular expressions of the code below.
\<close>

definition spec_whole_word :: "string \<Rightarrow> string \<Rightarrow> bool" where
  "spec_whole_word k s =
     (\<exists>pre m post. s = pre @ m @ post \<and> map lower m = map lower k
        \<and> (pre = [] \<or> \<not> is_word (last pre)) \<and> (post = [] \<or> \<not> is_word (hd post)))"

definition spec_begins_with_SELECT :: "string \<Rightarrow> bool" where
  "spec_begins_with_SELECT s =
     (\<exists>ws m post. s = ws @ m @ post \<and> (\<forall>c\<in>set ws. is_space c)
        \<and> map lower m = map lower ''SELECT'' \<and> (post = [] \<or> \<not> is_word (hd post)))"

definition spec_trimmed :: "string \<Rightarrow> string" where
  "spec_trimmed s =
     (let q = rstrip s in if q \<noteq> [] \<and> last q = CHR '';'' then butlast q else q)"

section \<open>Facts about literals, word boundaries and stripping\<close>

lemma literal_prefix_iff:
  "literal_prefix p t \<longleftrightarrow> length p \<le> length t \<and> map lower (take (length p) t) = map lower p"
  by (induction p t rule: literal_prefix.induct) auto

lemma literal_at_iff:
  "p \<noteq> [] \<Longrightarrow> literal_at p s i \<longleftrightarrow>
     i + length p \<le> length s \<and> map lower (take (length p) (drop i s)) = map lower p"
  by (cases p) (auto simp: literal_at_def literal_prefix_iff)

lemma literal_at_nth:
  "literal_at p s i \<Longrightarrow> m < length p \<Longrightarrow> lower (s ! (i + m)) = lower (p ! m)"
proof -
  assume a: "literal_at p s i" and m: "m < length p"
  then have "p \<noteq> []" by auto
  with a have l: "i + length p \<le> length s"
    and e: "map lower (take (length p) (drop i s)) = map lower p"
    by (simp_all add: literal_at_iff)
  from e have "map lower (take (length p) (drop i s)) ! m = map lower p ! m" by simp
  with m l show ?thesis by simp
qed

lemma literal_at_append_left:
  "i + length k \<le> length p \<Longrightarrow> literal_at k (p @ t) i = literal_at k p i"
  by (auto simp: literal_at_def literal_prefix_iff)

lemma literal_at_append_right:
  "literal_at k (p @ t) (length p + j) = literal_at k t j"
  by (simp add: literal_at_def)

lemma word_boundary_append_left:
  "i < length p \<Longrightarrow> word_boundary (p @ t) i = word_boundary p i"
  by (cases i) (auto simp: word_boundary_def nth_append)

lemma word_boundary_append_end:
  "t = [] \<or> \<not> is_word (hd t) \<Longrightarrow> word_boundary (p @ t) (length p) = word_boundary p (length p)"
  by (cases t) (auto simp: word_boundary_def nth_append)

lemma word_boundary_append_right:
  "0 < j \<Longrightarrow> word_boundary (p @ t) (length p + j) = word_boundary t j"
  by (cases j) (auto simp: word_boundary_def nth_append)

lemma list_ex_upt_iff: "list_ex P [0..<Suc n] \<longleftrightarrow> (\<exists>i\<le>n. P i)"
proof -
  have "list_ex P [0..<Suc n] \<longleftrightarrow> (\<exists>i\<in>set [0..<Suc n]. P i)" by (rule list_ex_iff)
  also have "set [0..<Suc n] = {i. i \<le> n}" by (simp only: set_upt) auto
  finally show ?thesis by simp
qed

lemma FORBIDDEN_search_iff: "FORBIDDEN_search s \<longleftrightarrow> (\<exists>i\<le>length s. FORBIDDEN_at s i)"
  unfolding FORBIDDEN_search_def by (rule list_ex_upt_iff)

lemma LIMIT_search_iff: "LIMIT_search s \<longleftrightarrow> (\<exists>i\<le>length s. LIMIT_at s i)"
  unfolding LIMIT_search_def by (rule list_ex_upt_iff)

lemma FORBIDDEN_at_iff:
  "FORBIDDEN_at s i \<longleftrightarrow>
     word_boundary s i \<and>
     (\<exists>k\<in>set FORBIDDEN_alternatives. literal_at k s i \<and> word_boundary s (i + length k))"
  by (auto simp: FORBIDDEN_at_def list_ex_iff)

lemma is_space_not_word: "is_space c \<Longrightarrow> \<not> is_word c"
  by (auto simp: is_space_def is_word_def Let_def)

lemma semicolon_not_word: "\<not> is_word (CHR '';'')"
  by (simp add: is_word_def code_point_def)

lemma rstrip_chars_decomp:
  "\<exists>t. s = rstrip_chars P s @ t \<and> (\<forall>c\<in>set t. P c)"
proof -
  have "rstrip_chars P s @ rev (takeWhile P (rev s))
          = rev (takeWhile P (rev s) @ dropWhile P (rev s))"
    by (simp only: rstrip_chars_def rev_append)
  then have "s = rstrip_chars P s @ rev (takeWhile P (rev s))" by simp
  moreover have "\<forall>c\<in>set (rev (takeWhile P (rev s))). P c"
    by (auto dest: set_takeWhileD)
  ultimately show ?thesis by blast
qed

lemma alternatives_chars:
  "list_all (\<lambda>k. k \<noteq> [] \<and> list_all (\<lambda>c. lower c \<noteq> CHR '' '') k) FORBIDDEN_alternatives"
  by code_simp

lemma alternatives_nonempty: "k \<in> set FORBIDDEN_alternatives \<Longrightarrow> k \<noteq> []"
  using alternatives_chars by (simp add: list_all_iff)

lemma alternatives_no_space:
  "k \<in> set FORBIDDEN_alternatives \<Longrightarrow> m < length k \<Longrightarrow> lower (k ! m) \<noteq> CHR '' ''"
  using alternatives_chars by (simp add: list_all_iff)

lemma lower_space: "lower (CHR '' '') = CHR '' ''"
  by code_simp

lemma cap_no_alternative_upto:
  "list_all (\<lambda>j. list_all (\<lambda>k. \<not> literal_at k '' LIMIT 100'' j) FORBIDDEN_alternatives) [0..<11]"
  by code_simp

lemma cap_no_alternative:
  assumes "k \<in> set FORBIDDEN_alternatives"
  shows "\<not> literal_at k '' LIMIT 100'' j"
proof
  assume l: "literal_at k '' LIMIT 100'' j"
  from assms have "k \<noteq> []" by (rule alternatives_nonempty)
  with l have "j + length k \<le> length '' LIMIT 100''" by (simp add: literal_at_iff)
  then have "j \<in> set [0..<11]" by simp
  with cap_no_alternative_upto assms l show False
    unfolding list_all_iff by blast
qed

lemma word_boundary_same_prefix:
  assumes "i \<le> length p" and "t = [] \<or> \<not> is_word (hd t)" and "u = [] \<or> \<not> is_word (hd u)"
  shows "word_boundary (p @ t) i = word_boundary (p @ u) i"
proof (cases "i < length p")
  case True
  then show ?thesis by (simp add: word_boundary_append_left)
next
  case False
  with assms(1) have "i = length p" by simp
  with assms(2,3) show ?thesis by (simp add: word_boundary_append_end)
qed

lemma cap_hd: "'' LIMIT 100'' = [] \<or> \<not> is_word (hd '' LIMIT 100'')"
  by code_simp

lemma FORBIDDEN_at_cap_inside:
  assumes k: "k \<in> set FORBIDDEN_alternatives" and l: "literal_at k (p @ '' LIMIT 100'') i"
  shows "i + length k \<le> length p"
proof (rule ccontr)
  assume n: "\<not> i + length k \<le> length p"
  show False
  proof (cases "i \<le> length p")
    case True
    define m where "m = length p - i"
    with n True have m: "m < length k" and im: "i + m = length p" by simp_all
    from literal_at_nth [OF l m]
    have "lower ((p @ '' LIMIT 100'') ! length p) = lower (k ! m)" by (simp add: im)
    then have "lower (k ! m) = CHR '' ''" by (simp add: lower_space)
    with alternatives_no_space [OF k m] show False by simp
  next
    case False
    then obtain j where "i = length p + j" by (metis le_add_diff_inverse nat_le_linear)
    with l have "literal_at k '' LIMIT 100'' j" by (simp add: literal_at_append_right)
    with cap_no_alternative [OF k] show False by simp
  qed
qed

lemma FORBIDDEN_search_cap:
  assumes t: "\<forall>c\<in>set t. \<not> is_word c" and f: "FORBIDDEN_search (p @ '' LIMIT 100'')"
  shows "FORBIDDEN_search (p @ t)"
proof -
  let ?y = "p @ '' LIMIT 100''"
  from f obtain i k where b1: "word_boundary ?y i" and k: "k \<in> set FORBIDDEN_alternatives"
    and l: "literal_at k ?y i" and b2: "word_boundary ?y (i + length k)"
    by (auto simp: FORBIDDEN_search_iff FORBIDDEN_at_iff)
  from k l have le: "i + length k \<le> length p" by (rule FORBIDDEN_at_cap_inside)
  from t have t': "t = [] \<or> \<not> is_word (hd t)" by (cases t) auto
  from le have i: "i \<le> length p" by simp
  have "word_boundary (p @ t) i"
    using b1 word_boundary_same_prefix [OF i t' cap_hd] by simp
  moreover have "word_boundary (p @ t) (i + length k)"
    using b2 word_boundary_same_prefix [OF le t' cap_hd] by simp
  moreover have "literal_at k (p @ t) i"
    using l le by (simp add: literal_at_append_left)
  ultimately have "FORBIDDEN_at (p @ t) i"
    using k by (auto simp: FORBIDDEN_at_iff)
  moreover from i have "i \<le> length (p @ t)" by simp
  ultimately show ?thesis unfolding FORBIDDEN_search_iff by blast
qed

lemma LIMIT_at_cap: "LIMIT_at '' LIMIT 100'' 1"
  by code_simp

lemma whole_word_at_append_right:
  assumes "0 < j"
  shows "whole_word_at k (p @ t) (length p + j) = whole_word_at k t j"
proof -
  have "word_boundary (p @ t) (length p + (j + length k)) = word_boundary t (j + length k)"
    by (rule word_boundary_append_right) (simp add: assms)
  then show ?thesis
    using assms
    by (simp only: whole_word_at_def word_boundary_append_right literal_at_append_right
        add.assoc)
qed

lemma LIMIT_at_append_right: "0 < j \<Longrightarrow> LIMIT_at (p @ t) (length p + j) = LIMIT_at t j"
  by (simp only: LIMIT_at_def whole_word_at_append_right)

lemma LIMIT_search_cap: "LIMIT_search (p @ '' LIMIT 100'')"
proof -
  have "LIMIT_at (p @ '' LIMIT 100'') (length p + 1)"
    using LIMIT_at_cap by (simp only: LIMIT_at_append_right [OF zero_less_one])
  moreover have "length p + 1 \<le> length (p @ '' LIMIT 100'')" by simp
  ultimately show ?thesis unfolding LIMIT_search_iff by blast
qed

lemma strip_tail_decomp:
  "\<exists>t. s = rstrip_chars (\<lambda>c. c = CHR '';'') (rstrip s) @ t
       \<and> (\<forall>c\<in>set t. is_space c \<or> c = CHR '';'')"
proof -
  obtain t1 where t1: "s = rstrip s @ t1" "\<forall>c\<in>set t1. is_space c"
    unfolding rstrip_def using rstrip_chars_decomp [of s is_space] by blast
  obtain t2 where t2: "rstrip s = rstrip_chars (\<lambda>c. c = CHR '';'') (rstrip s) @ t2"
    "\<forall>c\<in>set t2. c = CHR '';''"
    using rstrip_chars_decomp [of "rstrip s" "\<lambda>c. c = CHR '';''"] by blast
  have "s = rstrip_chars (\<lambda>c. c = CHR '';'') (rstrip s) @ (t2 @ t1)"
    using t1(1) t2(1) by (metis append_assoc)
  moreover have "\<forall>c\<in>set (t2 @ t1). is_space c \<or> c = CHR '';''"
    using t1(2) t2(2) by auto
  ultimately show ?thesis by blast
qed

lemma tail_not_word: "is_space c \<or> c = CHR '';'' \<Longrightarrow> \<not> is_word c"
  using is_space_not_word semicolon_not_word by blast

lemma lower_SELECT: "map lower ''SELECT'' = ''select''"
  by code_simp

lemma select_letters: "list_all (\<lambda>c. \<not> is_space c \<and> c \<noteq> CHR '';'') ''select''"
  by code_simp

lemma lower_tail_char: "is_space c \<or> c = CHR '';'' \<Longrightarrow> lower c = c"
  by (auto simp: lower_def is_space_def Let_def code_point_def)

lemma SELECT_char:
  assumes "m < 6" and "lower c = lower (''SELECT'' ! m)"
  shows "\<not> (is_space c \<or> c = CHR '';'')"
proof
  assume a: "is_space c \<or> c = CHR '';''"
  then have "lower c = c" by (rule lower_tail_char)
  have len: "m < length ''SELECT''" using assms(1) by simp
  then have "map lower ''SELECT'' ! m = lower (''SELECT'' ! m)" by (rule nth_map)
  moreover from len have "m < length (map lower ''SELECT'')" by simp
  then have "map lower ''SELECT'' ! m \<in> set (map lower ''SELECT'')" by (rule nth_mem)
  ultimately have "lower (''SELECT'' ! m) \<in> set ''select''" by (simp only: lower_SELECT)
  with \<open>lower c = c\<close> assms(2) have "c \<in> set ''select''" by simp
  with select_letters a show False unfolding list_all_iff by blast
qed

lemma SELECT_match_iff:
  "SELECT_match s \<longleftrightarrow>
     literal_at ''SELECT'' s (length (takeWhile is_space s))
     \<and> word_boundary s (length (takeWhile is_space s) + 6)"
  by (simp add: SELECT_match_def Let_def)

lemma SELECT_match_cap:
  assumes sel: "SELECT_match (p @ t)" and t: "\<forall>c\<in>set t. is_space c \<or> c = CHR '';''"
  shows "SELECT_match (p @ '' LIMIT 100'')"
proof -
  define i0 where "i0 = length (takeWhile is_space (p @ t))"
  from sel have l: "literal_at ''SELECT'' (p @ t) i0" and b: "word_boundary (p @ t) (i0 + 6)"
    by (simp_all add: SELECT_match_iff i0_def)
  from l have len: "i0 + 6 \<le> length (p @ t)" by (simp add: literal_at_iff)
  have inside: "i0 + 6 \<le> length p"
  proof (rule ccontr)
    assume n: "\<not> i0 + 6 \<le> length p"
    define m where "m = length p - i0"
    from n have m: "m < 6" and ge: "length p \<le> i0 + m" by (simp_all add: m_def)
    from m len ge have "i0 + m - length p < length t" by simp
    then have "t ! (i0 + m - length p) \<in> set t" by (rule nth_mem)
    with ge have "(p @ t) ! (i0 + m) \<in> set t" by (simp add: nth_append)
    with t have "is_space ((p @ t) ! (i0 + m)) \<or> (p @ t) ! (i0 + m) = CHR '';''" by blast
    moreover from literal_at_nth [OF l, of m] m
    have "lower ((p @ t) ! (i0 + m)) = lower (''SELECT'' ! m)" by simp
    ultimately show False using SELECT_char [OF m] by blast
  qed
  from literal_at_nth [OF l, of 0] have "lower ((p @ t) ! i0) = lower (''SELECT'' ! 0)" by simp
  with inside have "lower (p ! i0) = lower (''SELECT'' ! 0)" by (simp add: nth_append)
  then have "\<not> is_space (p ! i0)" using SELECT_char [of 0 "p ! i0"] by simp
  moreover from inside have "p ! i0 \<in> set p" by simp
  ultimately have tw: "takeWhile is_space (p @ u) = takeWhile is_space p" for u
    by simp
  then have i0: "length (takeWhile is_space (p @ '' LIMIT 100'')) = i0"
    by (simp only: i0_def)
  from t have t': "t = [] \<or> \<not> is_word (hd t)" using tail_not_word by (cases t) auto
  have "literal_at ''SELECT'' (p @ '' LIMIT 100'') i0"
    using l inside by (simp add: literal_at_append_left)
  moreover have "word_boundary (p @ '' LIMIT 100'') (i0 + 6)"
    using b word_boundary_same_prefix [OF inside t' cap_hd] by simp
  ultimately show ?thesis by (simp only: SELECT_match_iff i0)
qed

lemma count_cap: "count_list (p @ '' LIMIT 100'') (CHR '';'') = count_list p (CHR '';'')"
  by simp

lemma enforce_read_only_Inr:
  assumes "enforce_read_only s = Inr y"
  shows "\<not> FORBIDDEN_search s" and "count_list s (CHR '';'') \<le> 1" and "SELECT_match s"
    and "if LIMIT_search s then y = s
         else y = rstrip_chars (\<lambda>c. c = CHR '';'') (rstrip s) @ '' LIMIT 100''"
  using assms by (auto simp: enforce_read_only_def split: if_splits)

lemma enforce_read_only_output:
  assumes "enforce_read_only s = Inr y"
  shows "\<not> FORBIDDEN_search y \<and> count_list y (CHR '';'') \<le> 1 \<and> SELECT_match y
    \<and> LIMIT_search y"
proof -
  note a = enforce_read_only_Inr [OF assms]
  obtain t where t: "s = rstrip_chars (\<lambda>c. c = CHR '';'') (rstrip s) @ t"
    "\<forall>c\<in>set t. is_space c \<or> c = CHR '';''"
    using strip_tail_decomp by blast
  define p where "p = rstrip_chars (\<lambda>c. c = CHR '';'') (rstrip s)"
  from t have s: "s = p @ t" by (simp add: p_def)
  from t(2) have nw: "\<forall>c\<in>set t. \<not> is_word c" using tail_not_word by blast
  show ?thesis
  proof (cases "LIMIT_search s")
    case True
    with a show ?thesis by simp
  next
    case False
    with a(4) have y: "y = p @ '' LIMIT 100''" by (simp add: p_def)
    have "\<not> FORBIDDEN_search y"
      using a(1) FORBIDDEN_search_cap [OF nw, of p] unfolding y s by blast
    moreover have "count_list y (CHR '';'') \<le> 1"
      using a(2) unfolding y s by simp
    moreover have "SELECT_match y"
      using a(3) t(2) unfolding y s by (rule SELECT_match_cap)
    moreover have "LIMIT_search y" unfolding y by (rule LIMIT_search_cap)
    ultimately show ?thesis by simp
  qed
qed

section \<open>Evaluations of the guard\<close>

lemma run_two_statements:
  "enforce_read_only ''SELECT * FROM a; SELECT * FROM b''
     = Inr ''SELECT * FROM a; SELECT * FROM b LIMIT 100''"
  by code_simp

lemma run_name_limit_5:
  "enforce_read_only ''SELECT name FROM t LIMIT 5'' = Inr ''SELECT name FROM t LIMIT 5''"
  by code_simp

lemma run_select_1: "enforce_read_only ''SELECT 1'' = Inr ''SELECT 1 LIMIT 100''"
  by code_simp

lemma LIMIT_search_name_limit_5: "LIMIT_search ''SELECT name FROM t LIMIT 5''"
  by code_simp

section \<open>The claims\<close>

text \<open>
  C3. The candidate \<open>SELECT * FROM a; SELECT * FROM b\<close> holds two statements and should be
  rejected as multiple statements. The guard does not reject it: the semicolon of the denylist
  stands between \<open>\b\<close> anchors and so is only found between two word characters, and the
  count of semicolons is one. The candidate is returned with the row cap appended.
\<close>

theorem C3_two_statements_accepted:
  "enforce_read_only ''SELECT * FROM a; SELECT * FROM b''
     = Inr ''SELECT * FROM a; SELECT * FROM b LIMIT 100''
   \<and> enforce_read_only ''SELECT * FROM a; SELECT * FROM b''
     \<noteq> Inl (ValueError ''Multiple statements detected; only SELECT allowed'')"
  by (simp add: run_two_statements)

text \<open>
  C6. An accepted candidate that already holds a whole-word \<open>LIMIT\<close> (in any case) is
  returned as it is; so is \<open>SELECT name FROM t LIMIT 5\<close>.
\<close>

theorem C6_limit_kept:
  "(enforce_read_only s = Inr y \<longrightarrow> LIMIT_search s \<longrightarrow> y = s)
   \<and> enforce_read_only ''SELECT name FROM t LIMIT 5'' = Inr ''SELECT name FROM t LIMIT 5''"
proof (intro conjI impI)
  assume "enforce_read_only s = Inr y" and "LIMIT_search s"
  then show "y = s"
    by (simp add: enforce_read_only_def split: if_splits)
next
  show "enforce_read_only ''SELECT name FROM t LIMIT 5'' = Inr ''SELECT name FROM t LIMIT 5''"
    by (rule run_name_limit_5)
qed

theorem C6_limit_kept_witness:
  "enforce_read_only ''SELECT name FROM t LIMIT 5'' = Inr ''SELECT name FROM t LIMIT 5''
   \<and> LIMIT_search ''SELECT name FROM t LIMIT 5''"
  using C6_limit_kept [of "''SELECT name FROM t LIMIT 5''" "''SELECT name FROM t LIMIT 5''"]
    LIMIT_search_name_limit_5
  by simp

text \<open>
  C8. The guard is idempotent on its successes: a returned string passes the guard again and
  comes back unchanged, with no second row cap.
\<close>

theorem C8_idempotent: "enforce_read_only s = Inr y \<Longrightarrow> enforce_read_only y = Inr y"
  using enforce_read_only_output [of s y] by (simp add: enforce_read_only_def)

theorem C8_idempotent_witness:
  "enforce_read_only ''SELECT 1'' = Inr ''SELECT 1 LIMIT 100''
   \<and> enforce_read_only ''SELECT 1 LIMIT 100'' = Inr ''SELECT 1 LIMIT 100''"
  using C8_idempotent [OF run_select_1] run_select_1 by simp

end
